theory Spec2Isabelle
  imports Main "HOL-Library.Word"
begin

section \<open>Identity and address representations (v2/coord/conversion.go)\<close>

text \<open>
  \<^verbatim>\<open>peer.ID\<close> is a Go string type and \<^verbatim>\<open>kadt.PeerID\<close> is declared as a
  \<^verbatim>\<open>peer.ID\<close>, so converting between the two keeps the value. A multiaddress is
  opaque to this package. \<^verbatim>\<open>KadKey\<close> is \<^verbatim>\<open>key.Key256\<close>, a 256-bit key.
\<close>

type_synonym peer_id = string
type_synonym multiaddr = string
type_synonym kad_key = "256 word"

text \<open>
  \<^verbatim>\<open>kad.NodeID[key.Key256]\<close> is an interface. Its dynamic value is either a
  \<^verbatim>\<open>kadt.PeerID\<close> or a value of some other concrete type (named here by its type
  name; the nil interface is one of them).
\<close>

datatype node_id = KadtPeerID peer_id | ForeignNodeID string

text \<open>\<^verbatim>\<open>kad.NodeInfo\<close>: the methods \<^verbatim>\<open>ID()\<close> and \<^verbatim>\<open>Addresses()\<close>.\<close>

record node_info =
  info_ID :: node_id
  info_Addresses :: "multiaddr list"

text \<open>\<^verbatim>\<open>peer.AddrInfo\<close>.\<close>

record addr_info =
  ID :: peer_id
  Addrs :: "multiaddr list"

text \<open>The ways a call of this package aborts.\<close>

datatype panic =
    TypeAssertionFailed
  | UnexpectedDhtEvent
  | UnexpectedPoolState

text \<open>The type assertion \<^verbatim>\<open>id.(kadt.PeerID)\<close>: it panics on any other dynamic type.\<close>

fun assert_PeerID :: "node_id \<Rightarrow> panic + peer_id" where
  "assert_PeerID (KadtPeerID pid) = Inr pid"
| "assert_PeerID (ForeignNodeID t) = Inl TypeAssertionFailed"

fun is_PeerID :: "node_id \<Rightarrow> bool" where
  "is_PeerID (KadtPeerID pid) = True"
| "is_PeerID (ForeignNodeID t) = False"

definition NodeInfoToAddrInfo :: "node_info \<Rightarrow> panic + addr_info" where
  "NodeInfoToAddrInfo info =
     (case assert_PeerID (info_ID info) of
        Inl e \<Rightarrow> Inl e
      | Inr peerID \<Rightarrow> Inr \<lparr>ID = peerID, Addrs = info_Addresses info\<rparr>)"

definition NodeIDToAddrInfo :: "node_id \<Rightarrow> panic + addr_info" where
  "NodeIDToAddrInfo nid =
     (case assert_PeerID nid of
        Inl e \<Rightarrow> Inl e
      | Inr peerID \<Rightarrow> Inr \<lparr>ID = peerID, Addrs = []\<rparr>)"

text \<open>
  The loop over \<^verbatim>\<open>range infos\<close> fills \<^verbatim>\<open>peers[i]\<close> from \<^verbatim>\<open>infos[i]\<close> in index
  order and stops at the first failing type assertion.
\<close>

fun SliceOfNodeInfoToSliceOfAddrInfo :: "node_info list \<Rightarrow> panic + addr_info list" where
  "SliceOfNodeInfoToSliceOfAddrInfo [] = Inr []"
| "SliceOfNodeInfoToSliceOfAddrInfo (info # infos) =
     (case assert_PeerID (info_ID info) of
        Inl e \<Rightarrow> Inl e
      | Inr peerID \<Rightarrow>
          (case SliceOfNodeInfoToSliceOfAddrInfo infos of
             Inl e \<Rightarrow> Inl e
           | Inr peers \<Rightarrow> Inr (\<lparr>ID = peerID, Addrs = info_Addresses info\<rparr> # peers)))"

fun SliceOfPeerIDToSliceOfNodeID :: "peer_id list \<Rightarrow> node_id list" where
  "SliceOfPeerIDToSliceOfNodeID [] = []"
| "SliceOfPeerIDToSliceOfNodeID (p # peers) = KadtPeerID p # SliceOfPeerIDToSliceOfNodeID peers"

definition NodeIDToPeerID :: "node_id \<Rightarrow> panic + peer_id" where
  "NodeIDToPeerID nid = assert_PeerID nid"

text \<open>The value an accepted node info converts to.\<close>

fun the_PeerID :: "node_id \<Rightarrow> peer_id" where
  "the_PeerID (KadtPeerID pid) = pid"
| "the_PeerID (ForeignNodeID t) = []"

definition addr_info_of :: "node_info \<Rightarrow> addr_info" where
  "addr_info_of info = \<lparr>ID = the_PeerID (info_ID info), Addrs = info_Addresses info\<rparr>"

section \<open>Events, pool events and pool states (v2/coord/query.go)\<close>

type_synonym query_id = string
type_synonym protocol_id = string

text \<open>
  \<^verbatim>\<open>kad.Request\<close>: the code reads the target of a message with \<^verbatim>\<open>Target()\<close>; the rest
  of a message is carried along unchanged.
\<close>

record kad_request =
  req_Target :: kad_key
  req_Body :: string

text \<open>
  Modelled from the spec: \<^verbatim>\<open>CloserNodesResponse\<close> is declared outside the two source
  files. The response it builds is represented by the two arguments it is built from, the
  target and the closer nodes ("a progress event carrying the response").
\<close>

record kad_response =
  resp_Target :: kad_key
  resp_CloserNodes :: "addr_info list"

definition CloserNodesResponse :: "kad_key \<Rightarrow> addr_info list \<Rightarrow> kad_response" where
  "CloserNodesResponse k nodes = \<lparr>resp_Target = k, resp_CloserNodes = nodes\<rparr>"

text \<open>\<^verbatim>\<open>query.QueryStats\<close>, copied from the pool state into the finish event.\<close>

record query_stats =
  Requests :: int
  Success :: int
  Failure :: int

text \<open>
  A notification target (\<^verbatim>\<open>NotifyCloser[BehaviourEvent]\<close>, an interface with the
  methods \<^verbatim>\<open>Notify\<close> and \<^verbatim>\<open>Close\<close>) is an object outside this file; it is named
  by its identity, and what the behaviour does to it is the list of calls it makes on it.
  A nil target is \<open>None\<close>.
\<close>

type_synonym waiter = nat

text \<open>
  Modelled from the spec: the event structs are declared outside the two source files; their
  fields here are the ones the source reads and sets, which are the ones the specification
  lists for the inbound and outbound events.

  \<^verbatim>\<open>BehaviourEvent\<close> is an interface. The first four variants are the ones
  \<^verbatim>\<open>Notify\<close> accepts, the next four are the ones this file produces (fields in the
  order of the struct literals of the source; the \<^verbatim>\<open>Notify\<close> field of
  \<^verbatim>\<open>EventOutboundGetCloserNodes\<close> is always the behaviour itself), and
  \<open>EventOther\<close> stands for any other implementation of the interface, by type name.
\<close>

datatype behaviour_event =
    EventStartQuery query_id kad_key protocol_id kad_request "peer_id list" "waiter option"
  | EventStopQuery query_id
  | EventGetCloserNodesSuccess query_id addr_info kad_key "addr_info list"
  | EventGetCloserNodesFailure query_id addr_info kad_key string
  | EventOutboundGetCloserNodes query_id addr_info kad_key
  | EventAddAddrInfo addr_info
  | EventQueryProgressed peer_id query_id kad_response
  | EventQueryFinished query_id query_stats
  | EventOther string

text \<open>
  \<^verbatim>\<open>query.PoolEvent\<close> of the external package \<^verbatim>\<open>go-kademlia/query\<close>, with the
  fields \<^verbatim>\<open>Notify\<close> and \<^verbatim>\<open>Perform\<close> set.
\<close>

datatype pool_event =
    EventPoolAddQuery query_id kad_key protocol_id kad_request "node_id list"
  | EventPoolStopQuery query_id
  | EventPoolMessageResponse node_id query_id kad_response
  | EventPoolMessageFailure node_id query_id string
  | EventPoolPoll

text \<open>
  \<^verbatim>\<open>query.PoolState\<close> of the same package, with the fields \<^verbatim>\<open>advancePool\<close>
  reads; \<open>StatePoolOther\<close> stands for a state of any other type, by type name.
\<close>

datatype pool_state =
    StatePoolQueryMessage query_id node_id kad_request
  | StatePoolWaitingAtCapacity
  | StatePoolWaitingWithCapacity
  | StatePoolQueryFinished query_id query_stats
  | StatePoolQueryTimeout query_id
  | StatePoolIdle
  | StatePoolOther string

text \<open>
  The pool is an external collaborator: \<^verbatim>\<open>Pool.Advance\<close> is a parameter, a function
  from the pool and an event to the state it reports and the pool it leaves.
\<close>

type_synonym 'pool advance = "'pool \<Rightarrow> pool_event \<Rightarrow> pool_state \<times> 'pool"

text \<open>The calls the behaviour makes on notification targets, in order.\<close>

datatype waiter_call =
    WaiterNotify waiter behaviour_event
  | WaiterClose waiter

section \<open>The behaviour\<close>

text \<open>
  \<^verbatim>\<open>ready\<close> is a channel of capacity one; its state here is the number of tokens it
  buffers. \<open>notified\<close> records the effect of the behaviour on the notification targets.
\<close>

record 'pool PooledQueryBehaviour =
  pool :: 'pool
  waiters :: "query_id \<rightharpoonup> waiter"
  pending :: "behaviour_event list"
  ready :: nat
  notified :: "waiter_call list"

definition ready_capacity :: nat where
  "ready_capacity = 1"

definition NewPooledQueryBehaviour :: "'pool \<Rightarrow> 'pool PooledQueryBehaviour" where
  "NewPooledQueryBehaviour pl =
     \<lparr>pool = pl, waiters = Map.empty, pending = [], ready = 0, notified = []\<rparr>"

text \<open>
  \<^verbatim>\<open>select { case p.ready <- struct{}{}: default: }\<close>: the send happens when the buffer
  has room and is dropped otherwise; neither branch waits.
\<close>

definition signal_ready :: "'pool PooledQueryBehaviour \<Rightarrow> 'pool PooledQueryBehaviour" where
  "signal_ready p = (if ready p < ready_capacity then p\<lparr>ready := ready p + 1\<rparr> else p)"

text \<open>
  A call either panics, leaving the behaviour as it was at that moment, or returns a value
  and the behaviour.
\<close>

type_synonym ('a, 'pool) outcome =
  "(panic \<times> 'pool PooledQueryBehaviour) + ('a \<times> 'pool PooledQueryBehaviour)"

definition advancePool ::
  "'pool advance \<Rightarrow> 'pool PooledQueryBehaviour \<Rightarrow> pool_event \<Rightarrow>
   (behaviour_event option, 'pool) outcome" where
  "advancePool adv p ev =
     (case adv (pool p) ev of (pstate, pl) \<Rightarrow>
        let p1 = p\<lparr>pool := pl\<rparr> in
        (case pstate of
           StatePoolQueryMessage qid nid msg \<Rightarrow>
             (case NodeIDToAddrInfo nid of
                Inl e \<Rightarrow> Inl (e, p1)
              | Inr to \<Rightarrow> Inr (Some (EventOutboundGetCloserNodes qid to (req_Target msg)), p1))
         | StatePoolWaitingAtCapacity \<Rightarrow> Inr (None, p1)
         | StatePoolWaitingWithCapacity \<Rightarrow> Inr (None, p1)
         | StatePoolQueryFinished qid stats \<Rightarrow>
             (case waiters p1 qid of
                Some w \<Rightarrow>
                  Inr (None, p1\<lparr>notified := notified p1 @
                         [WaiterNotify w (EventQueryFinished qid stats), WaiterClose w]\<rparr>)
              | None \<Rightarrow> Inr (None, p1))
         | StatePoolQueryTimeout qid \<Rightarrow> Inr (None, p1)
         | StatePoolIdle \<Rightarrow> Inr (None, p1)
         | StatePoolOther t \<Rightarrow> Inl (UnexpectedPoolState, p1)))"

text \<open>
  The type switch of \<^verbatim>\<open>Notify\<close>: the pool event it builds, and the behaviour after the
  side effects of the matching case.
\<close>

fun Notify_switch ::
  "'pool PooledQueryBehaviour \<Rightarrow> behaviour_event \<Rightarrow> (pool_event, 'pool) outcome" where
  "Notify_switch p (EventStartQuery qid target proto msg known notify) =
     Inr (EventPoolAddQuery qid target proto msg (SliceOfPeerIDToSliceOfNodeID known),
          (case notify of
             Some w \<Rightarrow> p\<lparr>waiters := (waiters p)(qid \<mapsto> w)\<rparr>
           | None \<Rightarrow> p))"
| "Notify_switch p (EventStopQuery qid) = Inr (EventPoolStopQuery qid, p)"
| "Notify_switch p (EventGetCloserNodesSuccess qid to target closer) =
     (let p1 = p\<lparr>pending := pending p @ map EventAddAddrInfo closer\<rparr>;
          p2 = (case waiters p1 qid of
                  Some w \<Rightarrow>
                    p1\<lparr>notified := notified p1 @
                      [WaiterNotify w
                         (EventQueryProgressed (ID to) qid (CloserNodesResponse target closer))]\<rparr>
                | None \<Rightarrow> p1)
      in Inr (EventPoolMessageResponse (KadtPeerID (ID to)) qid
                (CloserNodesResponse target closer), p2))"
| "Notify_switch p (EventGetCloserNodesFailure qid to target err) =
     Inr (EventPoolMessageFailure (KadtPeerID (ID to)) qid err, p)"
| "Notify_switch p ev = Inl (UnexpectedDhtEvent, p)"

definition Notify ::
  "'pool advance \<Rightarrow> 'pool PooledQueryBehaviour \<Rightarrow> behaviour_event \<Rightarrow> (unit, 'pool) outcome" where
  "Notify adv p ev =
     (case Notify_switch p ev of
        Inl e \<Rightarrow> Inl e
      | Inr (cmd, p1) \<Rightarrow>
          (case advancePool adv p1 cmd of
             Inl e \<Rightarrow> Inl e
           | Inr (out, p2) \<Rightarrow>
               let p3 = (case out of
                           Some ev' \<Rightarrow> p2\<lparr>pending := pending p2 @ [ev']\<rparr>
                         | None \<Rightarrow> p2)
               in Inr ((), if pending p3 \<noteq> [] then signal_ready p3 else p3)))"

text \<open>
  \<^verbatim>\<open>Perform\<close> returns \<open>Some ev\<close> for \<^verbatim>\<open>(ev, true)\<close> and \<open>None\<close> for
  \<^verbatim>\<open>(nil, false)\<close>. Its \<^verbatim>\<open>for\<close> loop goes round again only when the pool produced no
  event and the queue is no longer empty.
\<close>

function Perform ::
  "'pool advance \<Rightarrow> 'pool PooledQueryBehaviour \<Rightarrow> (behaviour_event option, 'pool) outcome" where
  "Perform adv p =
     (if pending p \<noteq> [] then
        (let ev = hd (pending p);
             p1 = p\<lparr>pending := tl (pending p)\<rparr>
         in Inr (Some ev, if pending p1 \<noteq> [] then signal_ready p1 else p1))
      else
        (case advancePool adv p EventPoolPoll of
           Inl e \<Rightarrow> Inl e
         | Inr (out, p1) \<Rightarrow>
             (case out of
                Some ev \<Rightarrow> Inr (Some ev, p1)
              | None \<Rightarrow> if pending p1 = [] then Inr (None, p1) else Perform adv p1)))"
  by pat_completeness auto
termination
  by (relation "measure (\<lambda>(adv, p). if pending p = [] then 1 else 0)") auto

section \<open>Calls from the outside, in sequence\<close>

text \<open>
  The coordinator calls \<^verbatim>\<open>Notify\<close> and \<^verbatim>\<open>Perform\<close>, and takes the token from the
  channel that \<^verbatim>\<open>Ready()\<close> returns (a receive that finds no token changes nothing).
\<close>

datatype call = CallNotify behaviour_event | CallPerform | CallRecvReady

fun step ::
  "'pool advance \<Rightarrow> 'pool PooledQueryBehaviour \<Rightarrow> call \<Rightarrow> (behaviour_event option, 'pool) outcome" where
  "step adv p (CallNotify ev) =
     (case Notify adv p ev of Inl e \<Rightarrow> Inl e | Inr (u, p1) \<Rightarrow> Inr (None, p1))"
| "step adv p CallPerform = Perform adv p"
| "step adv p CallRecvReady = Inr (None, p\<lparr>ready := ready p - 1\<rparr>)"

text \<open>A sequence of calls stops at the first panic.\<close>

fun exec ::
  "'pool advance \<Rightarrow> 'pool PooledQueryBehaviour \<Rightarrow> call list \<Rightarrow>
   (behaviour_event option list, 'pool) outcome" where
  "exec adv p [] = Inr ([], p)"
| "exec adv p (c # cs) =
     (case step adv p c of
        Inl e \<Rightarrow> Inl e
      | Inr (out, p1) \<Rightarrow>
          (case exec adv p1 cs of
             Inl e \<Rightarrow> Inl e
           | Inr (outs, p2) \<Rightarrow> Inr (out # outs, p2)))"

definition final_state :: "('a, 'pool) outcome \<Rightarrow> 'pool PooledQueryBehaviour" where
  "final_state r = (case r of Inl (e, p) \<Rightarrow> p | Inr (x, p) \<Rightarrow> p)"

text \<open>
  A pool that plays back a fixed list of states, one per call of \<^verbatim>\<open>Advance\<close>, and is
  idle afterwards: a stand-in for the external pool on concrete runs.
\<close>

fun scripted_pool :: "pool_state list advance" where
  "scripted_pool [] ev = (StatePoolIdle, [])"
| "scripted_pool (st # sts) ev = (st, sts)"

section \<open>The specification's view of the behaviour\<close>

text \<open>The closed sets of variants that the two dispatches handle.\<close>

fun known_event :: "behaviour_event \<Rightarrow> bool" where
  "known_event (EventStartQuery qid target proto msg known notify) = True"
| "known_event (EventStopQuery qid) = True"
| "known_event (EventGetCloserNodesSuccess qid to target closer) = True"
| "known_event (EventGetCloserNodesFailure qid to target err) = True"
| "known_event ev = False"

fun known_state :: "pool_state \<Rightarrow> bool" where
  "known_state (StatePoolOther t) = False"
| "known_state st = True"

text \<open>
  The event translation table of the specification: the pool event of each incoming event
  (second column) and the side effect that goes with it (third column).
\<close>

fun table_pool_event :: "behaviour_event \<Rightarrow> pool_event option" where
  "table_pool_event (EventStartQuery qid target proto msg known notify) =
     Some (EventPoolAddQuery qid target proto msg (map KadtPeerID known))"
| "table_pool_event (EventStopQuery qid) = Some (EventPoolStopQuery qid)"
| "table_pool_event (EventGetCloserNodesSuccess qid to target closer) =
     Some (EventPoolMessageResponse (KadtPeerID (ID to)) qid
             \<lparr>resp_Target = target, resp_CloserNodes = closer\<rparr>)"
| "table_pool_event (EventGetCloserNodesFailure qid to target err) =
     Some (EventPoolMessageFailure (KadtPeerID (ID to)) qid err)"
| "table_pool_event ev = None"

fun table_side_effect ::
  "'pool PooledQueryBehaviour \<Rightarrow> behaviour_event \<Rightarrow> 'pool PooledQueryBehaviour" where
  "table_side_effect p (EventStartQuery qid target proto msg known notify) =
     (if notify = None then p else p\<lparr>waiters := (waiters p)(qid := notify)\<rparr>)"
| "table_side_effect p (EventGetCloserNodesSuccess qid to target closer) =
     p\<lparr>pending := pending p @ map EventAddAddrInfo closer,
       notified := notified p @
         (case waiters p qid of
            None \<Rightarrow> []
          | Some w \<Rightarrow>
              [WaiterNotify w
                 (EventQueryProgressed (ID to) qid
                    \<lparr>resp_Target = target, resp_CloserNodes = closer\<rparr>)])\<rparr>"
| "table_side_effect p ev = p"

text \<open>
  What the specification says of the output of the pool advance inside \<^verbatim>\<open>Notify\<close>: it is
  put at the end of the queue before the call returns, and readiness is signalled when the
  queue is not empty.
\<close>

definition enqueue_output ::
  "behaviour_event option \<Rightarrow> 'pool PooledQueryBehaviour \<Rightarrow> 'pool PooledQueryBehaviour" where
  "enqueue_output out p =
     (let q = pending p @ (case out of None \<Rightarrow> [] | Some ev \<Rightarrow> [ev])
      in if q = [] then p
         else p\<lparr>pending := q, ready := (if ready p = 0 then 1 else ready p)\<rparr>)"

text \<open>A pool that also keeps the list of the events \<^verbatim>\<open>Advance\<close> was called with.\<close>

definition recording :: "'pool advance \<Rightarrow> ('pool \<times> pool_event list) advance" where
  "recording adv = (\<lambda>(pl, evs) ev. case adv pl ev of (st, pl') \<Rightarrow> (st, (pl', evs @ [ev])))"

text \<open>
  The events \<^verbatim>\<open>Perform\<close> returned over a sequence of calls, and the events the calls
  produced: what a \<^verbatim>\<open>Notify\<close> added to the queue, and what a \<^verbatim>\<open>Perform\<close> on an
  empty queue got from the pool.
\<close>

fun delivered :: "behaviour_event option list \<Rightarrow> behaviour_event list" where
  "delivered [] = []"
| "delivered (None # outs) = delivered outs"
| "delivered (Some ev # outs) = ev # delivered outs"

fun new_events ::
  "'pool PooledQueryBehaviour \<Rightarrow> call \<Rightarrow> behaviour_event option \<Rightarrow>
   'pool PooledQueryBehaviour \<Rightarrow> behaviour_event list" where
  "new_events p (CallNotify ev) out p1 = drop (length (pending p)) (pending p1)"
| "new_events p CallPerform out p1 = (if pending p = [] then delivered [out] else [])"
| "new_events p CallRecvReady out p1 = []"

fun produced ::
  "'pool advance \<Rightarrow> 'pool PooledQueryBehaviour \<Rightarrow> call list \<Rightarrow> behaviour_event list" where
  "produced adv p [] = []"
| "produced adv p (c # cs) =
     (case step adv p c of
        Inl e \<Rightarrow> []
      | Inr (out, p1) \<Rightarrow> new_events p c out p1 @ produced adv p1 cs)"

text \<open>
  A call registers a notification target for query \<open>q\<close> when it is a \<^verbatim>\<open>StartQuery\<close>
  for \<open>q\<close> that supplies one. The notifications about a query are the events carrying
  its identifier that were handed to some target.
\<close>

fun registers :: "query_id \<Rightarrow> call \<Rightarrow> bool" where
  "registers q (CallNotify (EventStartQuery qid target proto msg known notify)) =
     (qid = q \<and> notify \<noteq> None)"
| "registers q c = False"

fun about_query :: "query_id \<Rightarrow> waiter_call \<Rightarrow> bool" where
  "about_query q (WaiterNotify w (EventQueryProgressed nid qid resp)) = (qid = q)"
| "about_query q (WaiterNotify w (EventQueryFinished qid stats)) = (qid = q)"
| "about_query q c = False"

section \<open>Sample data for the concrete runs\<close>

definition msg5 :: kad_request where
  "msg5 = \<lparr>req_Target = 5, req_Body = []\<rparr>"

definition nodeA :: addr_info where
  "nodeA = \<lparr>ID = ''QmA'', Addrs = []\<rparr>"

definition nodeB :: addr_info where
  "nodeB = \<lparr>ID = ''QmB'', Addrs = [''/ip4/10.0.0.2'']\<rparr>"

definition nodeC :: addr_info where
  "nodeC = \<lparr>ID = ''QmC'', Addrs = []\<rparr>"

definition stats1 :: query_stats where
  "stats1 = \<lparr>Requests = 1, Success = 1, Failure = 0\<rparr>"

text \<open>
  A fresh behaviour whose pool will ask for a request to \<open>QmA\<close> and then for one to
  \<open>QmC\<close>; the response of \<open>QmA\<close> that names \<open>QmB\<close>; the behaviour after that
  response was notified; a sequence of calls and what it returns and leaves.
\<close>

definition fifo_start :: "pool_state list PooledQueryBehaviour" where
  "fifo_start = NewPooledQueryBehaviour
     [StatePoolQueryMessage ''q1'' (KadtPeerID ''QmA'') msg5,
      StatePoolQueryMessage ''q1'' (KadtPeerID ''QmC'') msg5]"

definition fifo_response :: behaviour_event where
  "fifo_response = EventGetCloserNodesSuccess ''q1'' nodeA 5 [nodeB]"

definition fifo_queued :: "pool_state list PooledQueryBehaviour" where
  "fifo_queued =
     \<lparr>pool = [StatePoolQueryMessage ''q1'' (KadtPeerID ''QmC'') msg5],
      waiters = Map.empty,
      pending = [EventAddAddrInfo nodeB, EventOutboundGetCloserNodes ''q1'' nodeA 5],
      ready = 1, notified = []\<rparr>"

definition fifo_calls :: "call list" where
  "fifo_calls = [CallNotify fifo_response, CallPerform, CallPerform, CallPerform, CallPerform]"

definition fifo_outs :: "behaviour_event option list" where
  "fifo_outs =
     [None, Some (EventAddAddrInfo nodeB), Some (EventOutboundGetCloserNodes ''q1'' nodeA 5),
      Some (EventOutboundGetCloserNodes ''q1'' nodeC 5), None]"

definition fifo_end :: "pool_state list PooledQueryBehaviour" where
  "fifo_end = \<lparr>pool = [], waiters = Map.empty, pending = [], ready = 1, notified = []\<rparr>"

text \<open>A behaviour with a notification target registered for \<open>q1\<close>.\<close>

definition table_start :: "pool_state list PooledQueryBehaviour" where
  "table_start =
     \<lparr>pool = [StatePoolQueryMessage ''q1'' (KadtPeerID ''QmC'') msg5],
      waiters = [''q1'' \<mapsto> 3], pending = [], ready = 0, notified = []\<rparr>"

text \<open>
  A behaviour with a target registered for \<open>q0\<close> only, and a run in which \<open>q1\<close> is
  started without a target, progresses and finishes, and \<open>q0\<close> progresses and finishes.
\<close>

definition forget_start :: "pool_state list PooledQueryBehaviour" where
  "forget_start =
     \<lparr>pool = [StatePoolQueryMessage ''q1'' (KadtPeerID ''QmA'') msg5,
              StatePoolQueryFinished ''q1'' stats1,
              StatePoolQueryFinished ''q0'' stats1],
      waiters = [''q0'' \<mapsto> 7], pending = [], ready = 0, notified = []\<rparr>"

definition forget_calls :: "call list" where
  "forget_calls =
     [CallNotify (EventStartQuery ''q1'' 5 ''/ipfs/kad/1.0.0'' msg5 [''QmA''] None),
      CallPerform,
      CallNotify (EventGetCloserNodesSuccess ''q1'' nodeA 5 []),
      CallNotify (EventGetCloserNodesSuccess ''q0'' nodeA 6 [])]"

definition forget_end :: "pool_state list PooledQueryBehaviour" where
  "forget_end =
     \<lparr>pool = [], waiters = [''q0'' \<mapsto> 7], pending = [], ready = 1,
      notified =
        [WaiterNotify 7 (EventQueryProgressed ''QmA'' ''q0'' (CloserNodesResponse 6 [])),
         WaiterNotify 7 (EventQueryFinished ''q0'' stats1),
         WaiterClose 7]\<rparr>"

section \<open>Properties of the conversions\<close>

lemma assert_PeerID_foreign: "\<not> is_PeerID nid \<Longrightarrow> assert_PeerID nid = Inl TypeAssertionFailed"
  by (cases nid) simp_all

lemma assert_PeerID_peer: "is_PeerID nid \<Longrightarrow> assert_PeerID nid = Inr (the_PeerID nid)"
  by (cases nid) simp_all

lemma slice_info_foreign:
  "\<exists>info \<in> set infos. \<not> is_PeerID (info_ID info) \<Longrightarrow>
   SliceOfNodeInfoToSliceOfAddrInfo infos = Inl TypeAssertionFailed"
proof (induction infos)
  case Nil
  then show ?case by simp
next
  case (Cons info infos)
  show ?case
  proof (cases "is_PeerID (info_ID info)")
    case False
    then show ?thesis by (simp add: assert_PeerID_foreign)
  next
    case True
    with Cons.prems have "\<exists>i \<in> set infos. \<not> is_PeerID (info_ID i)" by auto
    with Cons.IH True show ?thesis by (simp add: assert_PeerID_peer)
  qed
qed

lemma slice_info_peer:
  "\<forall>info \<in> set infos. is_PeerID (info_ID info) \<Longrightarrow>
   SliceOfNodeInfoToSliceOfAddrInfo infos = Inr (map addr_info_of infos)"
  by (induction infos) (simp_all add: assert_PeerID_peer addr_info_of_def)

lemma slice_peer_length: "length (SliceOfPeerIDToSliceOfNodeID ps) = length ps"
  by (induction ps) simp_all

lemma slice_peer_nth:
  "i < length ps \<Longrightarrow> SliceOfPeerIDToSliceOfNodeID ps ! i = KadtPeerID (ps ! i)"
proof (induction ps arbitrary: i)
  case Nil
  then show ?case by simp
next
  case (Cons p ps)
  then show ?case by (cases i) simp_all
qed

text \<open>
  C6. Every conversion at the identity boundary panics when the identity it meets is not a
  \<^verbatim>\<open>kadt.PeerID\<close> (for the slice conversion: when any element's identity is not), and
  never returns a coerced value in that case; on identities of the expected type it
  returns the peer ID unchanged, with the addresses of the input.
\<close>

theorem conversions_fail_loudly:
  "(\<not> is_PeerID nid \<longrightarrow>
      NodeIDToPeerID nid = Inl TypeAssertionFailed \<and>
      NodeIDToAddrInfo nid = Inl TypeAssertionFailed) \<and>
   (\<not> is_PeerID (info_ID info) \<longrightarrow> NodeInfoToAddrInfo info = Inl TypeAssertionFailed) \<and>
   ((\<exists>i \<in> set infos. \<not> is_PeerID (info_ID i)) \<longrightarrow>
      SliceOfNodeInfoToSliceOfAddrInfo infos = Inl TypeAssertionFailed) \<and>
   (is_PeerID pid \<longrightarrow>
      NodeIDToPeerID pid = Inr (the_PeerID pid) \<and>
      NodeIDToAddrInfo pid = Inr \<lparr>ID = the_PeerID pid, Addrs = []\<rparr>) \<and>
   (is_PeerID (info_ID pinfo) \<longrightarrow>
      NodeInfoToAddrInfo pinfo =
        Inr \<lparr>ID = the_PeerID (info_ID pinfo), Addrs = info_Addresses pinfo\<rparr>) \<and>
   ((\<forall>i \<in> set pinfos. is_PeerID (info_ID i)) \<longrightarrow>
      SliceOfNodeInfoToSliceOfAddrInfo pinfos = Inr (map addr_info_of pinfos))"
  by (simp add: NodeIDToPeerID_def NodeIDToAddrInfo_def NodeInfoToAddrInfo_def
      assert_PeerID_foreign assert_PeerID_peer slice_info_foreign slice_info_peer)

theorem conversions_fail_loudly_witness:
  "\<not> is_PeerID (ForeignNodeID ''key.Key256'') \<and>
   NodeIDToPeerID (ForeignNodeID ''key.Key256'') = Inl TypeAssertionFailed \<and>
   NodeIDToAddrInfo (ForeignNodeID ''key.Key256'') = Inl TypeAssertionFailed \<and>
   NodeInfoToAddrInfo \<lparr>info_ID = ForeignNodeID ''key.Key256'', info_Addresses = [''/ip4/10.0.0.1'']\<rparr>
     = Inl TypeAssertionFailed \<and>
   SliceOfNodeInfoToSliceOfAddrInfo
     [\<lparr>info_ID = KadtPeerID ''QmA'', info_Addresses = []\<rparr>,
      \<lparr>info_ID = ForeignNodeID ''key.Key256'', info_Addresses = [''/ip4/10.0.0.1'']\<rparr>]
     = Inl TypeAssertionFailed \<and>
   is_PeerID (KadtPeerID ''QmA'') \<and>
   NodeIDToPeerID (KadtPeerID ''QmA'') = Inr ''QmA'' \<and>
   NodeIDToAddrInfo (KadtPeerID ''QmA'') = Inr \<lparr>ID = ''QmA'', Addrs = []\<rparr> \<and>
   NodeInfoToAddrInfo \<lparr>info_ID = KadtPeerID ''QmA'', info_Addresses = [''/ip4/10.0.0.2'']\<rparr>
     = Inr \<lparr>ID = ''QmA'', Addrs = [''/ip4/10.0.0.2'']\<rparr> \<and>
   SliceOfNodeInfoToSliceOfAddrInfo
     [\<lparr>info_ID = KadtPeerID ''QmA'', info_Addresses = []\<rparr>,
      \<lparr>info_ID = KadtPeerID ''QmB'', info_Addresses = [''/ip4/10.0.0.2'']\<rparr>]
     = Inr [\<lparr>ID = ''QmA'', Addrs = []\<rparr>, \<lparr>ID = ''QmB'', Addrs = [''/ip4/10.0.0.2'']\<rparr>]"
  using conversions_fail_loudly
    [of "ForeignNodeID ''key.Key256''"
        "\<lparr>info_ID = ForeignNodeID ''key.Key256'', info_Addresses = [''/ip4/10.0.0.1'']\<rparr>"
        "[\<lparr>info_ID = KadtPeerID ''QmA'', info_Addresses = []\<rparr>,
          \<lparr>info_ID = ForeignNodeID ''key.Key256'', info_Addresses = [''/ip4/10.0.0.1'']\<rparr>]"
        "KadtPeerID ''QmA''"
        "\<lparr>info_ID = KadtPeerID ''QmA'', info_Addresses = [''/ip4/10.0.0.2'']\<rparr>"
        "[\<lparr>info_ID = KadtPeerID ''QmA'', info_Addresses = []\<rparr>,
          \<lparr>info_ID = KadtPeerID ''QmB'', info_Addresses = [''/ip4/10.0.0.2'']\<rparr>]"]
  by (simp add: addr_info_of_def)

text \<open>
  C10. Converting a slice of peer IDs to node IDs keeps the length, and converting the
  element at any index back with \<^verbatim>\<open>NodeIDToPeerID\<close> succeeds and gives the peer ID at
  that index.
\<close>

theorem peer_id_round_trip:
  "length (SliceOfPeerIDToSliceOfNodeID ps) = length ps \<and>
   (\<forall>i < length ps. NodeIDToPeerID (SliceOfPeerIDToSliceOfNodeID ps ! i) = Inr (ps ! i))"
  by (simp add: slice_peer_length slice_peer_nth NodeIDToPeerID_def)

theorem peer_id_round_trip_witness:
  "length (SliceOfPeerIDToSliceOfNodeID [''QmA'', ''QmB'']) = 2 \<and>
   NodeIDToPeerID (SliceOfPeerIDToSliceOfNodeID [''QmA'', ''QmB''] ! 1) = Inr ''QmB''"
proof -
  have len: "(1::nat) < length [''QmA'', ''QmB'']" by simp
  from peer_id_round_trip [of "[''QmA'', ''QmB'']"]
  have "length (SliceOfPeerIDToSliceOfNodeID [''QmA'', ''QmB'']) = length [''QmA'', ''QmB'']"
    and "\<forall>i < length [''QmA'', ''QmB''].
           NodeIDToPeerID (SliceOfPeerIDToSliceOfNodeID [''QmA'', ''QmB''] ! i)
             = Inr ([''QmA'', ''QmB''] ! i)"
    by blast+
  with len show ?thesis by auto
qed

section \<open>Properties of the behaviour\<close>

lemma advancePool_frame:
  "pending (final_state (advancePool adv p ev)) = pending p \<and>
   ready (final_state (advancePool adv p ev)) = ready p \<and>
   waiters (final_state (advancePool adv p ev)) = waiters p"
  by (simp add: advancePool_def final_state_def Let_def
      split: prod.splits pool_state.splits sum.splits option.splits)

lemma advancePool_Inr_frame:
  "advancePool adv p ev = Inr (out, p') \<Longrightarrow>
   pending p' = pending p \<and> ready p' = ready p \<and> waiters p' = waiters p"
  using advancePool_frame [of adv p ev] by (simp add: final_state_def)

lemma advancePool_Inl_frame:
  "advancePool adv p ev = Inl (e, p') \<Longrightarrow>
   pending p' = pending p \<and> ready p' = ready p \<and> waiters p' = waiters p"
  using advancePool_frame [of adv p ev] by (simp add: final_state_def)

lemma Perform_nonempty:
  "pending p = e # es \<Longrightarrow>
   Perform adv p = Inr (Some e, if es \<noteq> [] then signal_ready (p\<lparr>pending := es\<rparr>) else p\<lparr>pending := es\<rparr>)"
  by (simp add: Let_def)

lemma Perform_empty:
  "pending p = [] \<Longrightarrow> Perform adv p = advancePool adv p EventPoolPoll"
proof -
  assume e: "pending p = []"
  show ?thesis
  proof (cases "advancePool adv p EventPoolPoll")
    case (Inl a)
    with e show ?thesis by simp
  next
    case (Inr b)
    obtain out p1 where b: "b = (out, p1)" by (cases b)
    with Inr have "pending p1 = pending p" using advancePool_Inr_frame by blast
    with e Inr b show ?thesis by (cases out) simp_all
  qed
qed

declare Perform.simps [simp del]

lemma Notify_switch_unknown:
  "\<not> known_event ev \<Longrightarrow> Notify_switch p ev = Inl (UnexpectedDhtEvent, p)"
  by (cases ev) simp_all

lemma Notify_switch_known:
  "known_event ev \<Longrightarrow> \<exists>cmd p1. Notify_switch p ev = Inr (cmd, p1)"
  by (cases ev) (simp_all add: Let_def)

lemma assert_PeerID_panic: "assert_PeerID nid = Inl e \<Longrightarrow> e = TypeAssertionFailed"
  by (cases nid) simp_all

lemma NodeIDToAddrInfo_panic: "NodeIDToAddrInfo nid = Inl e \<Longrightarrow> e = TypeAssertionFailed"
  by (auto simp: NodeIDToAddrInfo_def split: sum.splits dest: assert_PeerID_panic)

lemma advancePool_panic_kind:
  "advancePool adv p cmd = Inl (e, q) \<Longrightarrow> e \<noteq> UnexpectedDhtEvent"
  by (auto simp: advancePool_def Let_def
      split: prod.splits pool_state.splits sum.splits option.splits
      dest: NodeIDToAddrInfo_panic)

lemma advancePool_unknown:
  "\<not> known_state (fst (adv (pool p) cmd)) \<Longrightarrow>
   advancePool adv p cmd = Inl (UnexpectedPoolState, p\<lparr>pool := snd (adv (pool p) cmd)\<rparr>)"
  by (cases "adv (pool p) cmd"; cases "fst (adv (pool p) cmd)") (simp_all add: advancePool_def)

lemma advancePool_known:
  "known_state (fst (adv (pool p) cmd)) \<Longrightarrow>
   advancePool adv p cmd \<noteq> Inl (UnexpectedPoolState, q)"
  by (cases "adv (pool p) cmd"; cases "fst (adv (pool p) cmd)")
     (auto simp add: advancePool_def Let_def split: option.splits sum.splits
        dest: NodeIDToAddrInfo_panic)

text \<open>
  C8. Both dispatches are exhaustive. \<^verbatim>\<open>Notify\<close> panics, before it touches the
  behaviour or the pool, on every event that is none of StartQuery, StopQuery,
  GetCloserNodesSuccess and GetCloserNodesFailure, and on those four it never raises that
  panic. \<^verbatim>\<open>advancePool\<close> panics on every pool state that is none of QueryMessage,
  WaitingAtCapacity, WaitingWithCapacity, QueryFinished, QueryTimeout and Idle, and on
  those six it never raises that panic.
\<close>

theorem unknown_variants_panic:
  "(\<not> known_event ev \<longrightarrow> Notify adv p ev = Inl (UnexpectedDhtEvent, p)) \<and>
   (known_event ev' \<longrightarrow> Notify adv p ev' \<noteq> Inl (UnexpectedDhtEvent, q)) \<and>
   (\<not> known_state (fst (adv (pool p) cmd)) \<longrightarrow>
      advancePool adv p cmd = Inl (UnexpectedPoolState, p\<lparr>pool := snd (adv (pool p) cmd)\<rparr>)) \<and>
   (known_state (fst (adv (pool p') cmd)) \<longrightarrow>
      advancePool adv p' cmd \<noteq> Inl (UnexpectedPoolState, q))"
proof (intro conjI impI)
  assume "\<not> known_event ev"
  then show "Notify adv p ev = Inl (UnexpectedDhtEvent, p)"
    by (simp add: Notify_def Notify_switch_unknown)
next
  assume "known_event ev'"
  then obtain c p1 where sw: "Notify_switch p ev' = Inr (c, p1)"
    using Notify_switch_known by blast
  show "Notify adv p ev' \<noteq> Inl (UnexpectedDhtEvent, q)"
  proof (cases "advancePool adv p1 c")
    case (Inl a)
    then show ?thesis using sw advancePool_panic_kind [of adv p1 c "fst a" "snd a"]
      by (auto simp: Notify_def)
  next
    case (Inr b)
    then show ?thesis using sw by (simp add: Notify_def Let_def split: prod.splits)
  qed
next
  assume "\<not> known_state (fst (adv (pool p) cmd))"
  then show "advancePool adv p cmd = Inl (UnexpectedPoolState, p\<lparr>pool := snd (adv (pool p) cmd)\<rparr>)"
    by (rule advancePool_unknown)
next
  assume "known_state (fst (adv (pool p') cmd))"
  then show "advancePool adv p' cmd \<noteq> Inl (UnexpectedPoolState, q)"
    by (rule advancePool_known)
qed


theorem unknown_variants_panic_witness:
  "\<not> known_event (EventAddAddrInfo \<lparr>ID = ''QmA'', Addrs = []\<rparr>) \<and>
   Notify scripted_pool (NewPooledQueryBehaviour [StatePoolOther ''query.StatePoolPaused''])
       (EventAddAddrInfo \<lparr>ID = ''QmA'', Addrs = []\<rparr>)
     = Inl (UnexpectedDhtEvent, NewPooledQueryBehaviour [StatePoolOther ''query.StatePoolPaused'']) \<and>
   known_event (EventStopQuery ''q1'') \<and>
   Notify scripted_pool (NewPooledQueryBehaviour [StatePoolOther ''query.StatePoolPaused''])
       (EventStopQuery ''q1'')
     \<noteq> Inl (UnexpectedDhtEvent, NewPooledQueryBehaviour []) \<and>
   \<not> known_state (fst (scripted_pool
       (pool (NewPooledQueryBehaviour [StatePoolOther ''query.StatePoolPaused''])) EventPoolPoll)) \<and>
   advancePool scripted_pool (NewPooledQueryBehaviour [StatePoolOther ''query.StatePoolPaused''])
       EventPoolPoll
     = Inl (UnexpectedPoolState, NewPooledQueryBehaviour []) \<and>
   known_state (fst (scripted_pool (pool (NewPooledQueryBehaviour [StatePoolIdle])) EventPoolPoll)) \<and>
   advancePool scripted_pool (NewPooledQueryBehaviour [StatePoolIdle]) EventPoolPoll
     \<noteq> Inl (UnexpectedPoolState, NewPooledQueryBehaviour [])"
  using unknown_variants_panic
    [of "EventAddAddrInfo \<lparr>ID = ''QmA'', Addrs = []\<rparr>" scripted_pool
        "NewPooledQueryBehaviour [StatePoolOther ''query.StatePoolPaused'']"
        "EventStopQuery ''q1''" "NewPooledQueryBehaviour []" EventPoolPoll
        "NewPooledQueryBehaviour [StatePoolIdle]"]
  by (simp add: NewPooledQueryBehaviour_def)

lemma Notify_switch_table:
  "table_pool_event ev = Some cmd \<Longrightarrow> Notify_switch p ev = Inr (cmd, table_side_effect p ev)"
proof (cases ev)
  case (EventStartQuery qid target proto msg known notify)
  assume "table_pool_event ev = Some cmd"
  moreover have "SliceOfPeerIDToSliceOfNodeID known = map KadtPeerID known"
    by (induction known) simp_all
  ultimately show ?thesis using EventStartQuery
    by (cases notify) auto
next
  case (EventGetCloserNodesSuccess qid to target closer)
  assume "table_pool_event ev = Some cmd"
  then show ?thesis using EventGetCloserNodesSuccess
    by (cases "waiters p qid") (auto simp: Let_def CloserNodesResponse_def)
qed auto

lemma enqueue_output_eq:
  "(let p3 = (case out of Some ev' \<Rightarrow> p2\<lparr>pending := pending p2 @ [ev']\<rparr> | None \<Rightarrow> p2)
    in Inr ((), if pending p3 \<noteq> [] then signal_ready p3 else p3))
   = Inr ((), enqueue_output out p2)"
  by (cases out) (auto simp: enqueue_output_def signal_ready_def ready_capacity_def Let_def)

lemma table_side_effect_ready: "ready (table_side_effect p ev) = ready p"
  by (cases ev) simp_all

lemma advancePool_recording:
  "snd (pool (final_state (advancePool (recording adv) p cmd))) = snd (pool p) @ [cmd]"
  by (cases "pool p")
     (simp add: advancePool_def recording_def final_state_def Let_def
       split: prod.splits pool_state.splits sum.splits option.splits)

lemma table_side_effect_pool: "pool (table_side_effect p ev) = pool p"
  by (cases ev) simp_all

lemma final_state_Notify:
  "Notify_switch p ev = Inr (cmd, p1) \<Longrightarrow>
   pool (final_state (Notify adv p ev)) = pool (final_state (advancePool adv p1 cmd))"
  by (auto simp: Notify_def final_state_def Let_def signal_ready_def split: sum.splits prod.splits option.splits)

text \<open>
  C3. \<^verbatim>\<open>Notify\<close> follows the translation table. For an incoming event with a row in
  the table, the call is: the side effect of that row (StartQuery registers the target if
  and only if one was supplied; GetCloserNodesSuccess queues one add-address event per
  returned node and hands the registered target a progress event carrying the response;
  StopQuery and GetCloserNodesFailure have none), then one advance of the pool with the
  pool event of that row, whose output is queued. A pool that records its events receives
  exactly that one event.
\<close>

theorem notify_translation_table:
  assumes "table_pool_event ev = Some cmd"
  shows "Notify adv p ev =
           (case advancePool adv (table_side_effect p ev) cmd of
              Inl e \<Rightarrow> Inl e
            | Inr (out, p2) \<Rightarrow> Inr ((), enqueue_output out p2)) \<and>
         snd (pool (final_state (Notify (recording adv) p' ev))) = snd (pool p') @ [cmd]"
proof
  have sw: "Notify_switch p ev = Inr (cmd, table_side_effect p ev)"
    using assms by (rule Notify_switch_table)
  show "Notify adv p ev =
           (case advancePool adv (table_side_effect p ev) cmd of
              Inl e \<Rightarrow> Inl e
            | Inr (out, p2) \<Rightarrow> Inr ((), enqueue_output out p2))"
  proof (cases "advancePool adv (table_side_effect p ev) cmd")
    case (Inl a)
    with sw show ?thesis by (simp add: Notify_def)
  next
    case (Inr b)
    obtain out p2 where b: "b = (out, p2)" by (cases b)
    from sw Inr b show ?thesis
      by (simp add: Notify_def enqueue_output_eq)
  qed
next
  have sw: "Notify_switch p' ev = Inr (cmd, table_side_effect p' ev)"
    using assms by (rule Notify_switch_table)
  show "snd (pool (final_state (Notify (recording adv) p' ev))) = snd (pool p') @ [cmd]"
    using final_state_Notify [OF sw, of "recording adv"]
      advancePool_recording [of adv "table_side_effect p' ev" cmd]
    by (simp add: table_side_effect_pool)
qed


theorem notify_translation_table_witness:
  "table_pool_event fifo_response =
     Some (EventPoolMessageResponse (KadtPeerID ''QmA'') ''q1''
             \<lparr>resp_Target = 5, resp_CloserNodes = [nodeB]\<rparr>) \<and>
   Notify scripted_pool table_start fifo_response =
     Inr ((),
       \<lparr>pool = [], waiters = [''q1'' \<mapsto> 3],
        pending = [EventAddAddrInfo nodeB, EventOutboundGetCloserNodes ''q1'' nodeC 5],
        ready = 1,
        notified =
          [WaiterNotify 3 (EventQueryProgressed ''QmA'' ''q1''
             \<lparr>resp_Target = 5, resp_CloserNodes = [nodeB]\<rparr>)]\<rparr>) \<and>
   snd (pool (final_state (Notify (recording scripted_pool)
          (NewPooledQueryBehaviour ([StatePoolIdle], [EventPoolPoll])) fifo_response)))
     = [EventPoolPoll,
        EventPoolMessageResponse (KadtPeerID ''QmA'') ''q1''
          \<lparr>resp_Target = 5, resp_CloserNodes = [nodeB]\<rparr>]"
proof -
  note defs = table_start_def fifo_response_def msg5_def nodeA_def nodeB_def nodeC_def
    NewPooledQueryBehaviour_def
  have h: "table_pool_event fifo_response =
     Some (EventPoolMessageResponse (KadtPeerID ''QmA'') ''q1''
             \<lparr>resp_Target = 5, resp_CloserNodes = [nodeB]\<rparr>)"
    by (simp add: defs)
  note T = notify_translation_table
    [OF h, where adv = scripted_pool and p = table_start
       and p' = "NewPooledQueryBehaviour ([StatePoolIdle], [EventPoolPoll])"]
  have c1: "Notify scripted_pool table_start fifo_response =
     Inr ((),
       \<lparr>pool = [], waiters = [''q1'' \<mapsto> 3],
        pending = [EventAddAddrInfo nodeB, EventOutboundGetCloserNodes ''q1'' nodeC 5],
        ready = 1,
        notified =
          [WaiterNotify 3 (EventQueryProgressed ''QmA'' ''q1''
             \<lparr>resp_Target = 5, resp_CloserNodes = [nodeB]\<rparr>)]\<rparr>)"
    using T [THEN conjunct1]
    by (simp add: defs advancePool_def NodeIDToAddrInfo_def enqueue_output_def)
  have c2: "snd (pool (final_state (Notify (recording scripted_pool)
          (NewPooledQueryBehaviour ([StatePoolIdle], [EventPoolPoll])) fifo_response)))
     = [EventPoolPoll,
        EventPoolMessageResponse (KadtPeerID ''QmA'') ''q1''
          \<lparr>resp_Target = 5, resp_CloserNodes = [nodeB]\<rparr>]"
    using T [THEN conjunct2] by (simp add: NewPooledQueryBehaviour_def)
  from h c1 c2 show ?thesis
    by (intro conjI)
qed

lemma Notify_switch_pending:
  "Notify_switch p ev = Inr (cmd, p1) \<Longrightarrow> \<exists>xs. pending p1 = pending p @ xs"
  by (cases ev) (auto simp: Let_def split: option.splits)

lemma Notify_pending:
  assumes "Notify adv p ev = Inr (u, p')"
  shows "\<exists>xs. pending p' = pending p @ xs"
proof -
  from assms obtain cmd p1 where sw: "Notify_switch p ev = Inr (cmd, p1)"
    by (auto simp: Notify_def split: sum.splits)
  with assms obtain out p2 where ad: "advancePool adv p1 cmd = Inr (out, p2)"
    by (auto simp: Notify_def split: sum.splits)
  from ad have p2: "pending p2 = pending p1" using advancePool_Inr_frame by blast
  from sw obtain xs where xs: "pending p1 = pending p @ xs"
    using Notify_switch_pending by blast
  from assms sw ad have "p' = enqueue_output out p2"
    by (simp add: Notify_def enqueue_output_eq)
  then have "pending p' = pending p2 @ (case out of None \<Rightarrow> [] | Some e \<Rightarrow> [e])"
    by (simp add: enqueue_output_def Let_def)
  with p2 xs show ?thesis by simp
qed

lemma Perform_empty_pending:
  "pending p = [] \<Longrightarrow> Perform adv p = Inr (out, p1) \<Longrightarrow> pending p1 = []"
  using advancePool_Inr_frame [of adv p EventPoolPoll out p1] by (simp add: Perform_empty)

lemma step_fifo:
  assumes "step adv p c = Inr (out, p1)"
  shows "delivered [out] @ pending p1 = pending p @ new_events p c out p1"
proof (cases c)
  case (CallNotify ev)
  with assms obtain u where n: "Notify adv p ev = Inr (u, p1)" and o: "out = None"
    by (auto split: sum.splits)
  from n obtain xs where "pending p1 = pending p @ xs" using Notify_pending by blast
  with o CallNotify show ?thesis by simp
next
  case CallPerform
  show ?thesis
  proof (cases "pending p")
    case Nil
    with assms CallPerform have "pending p1 = []" using Perform_empty_pending by auto
    with Nil CallPerform show ?thesis by simp
  next
    case (Cons e es)
    with assms CallPerform show ?thesis by (auto simp: Perform_nonempty signal_ready_def)
  qed
next
  case CallRecvReady
  with assms show ?thesis by auto
qed

lemma delivered_Cons: "delivered (out # outs) = delivered [out] @ delivered outs"
  by (cases out) simp_all

lemma exec_fifo:
  "exec adv p cs = Inr (outs, p') \<Longrightarrow> delivered outs @ pending p' = pending p @ produced adv p cs"
proof (induction cs arbitrary: p outs)
  case Nil
  then show ?case by simp
next
  case (Cons c cs)
  from Cons.prems obtain out p1 outs1
    where st: "step adv p c = Inr (out, p1)"
      and ex: "exec adv p1 cs = Inr (outs1, p')"
      and outs: "outs = out # outs1"
    by (auto split: sum.splits)
  from Cons.IH [OF ex] have ih: "delivered outs1 @ pending p' = pending p1 @ produced adv p1 cs" .
  have "delivered outs @ pending p' = delivered [out] @ (delivered outs1 @ pending p')"
    using outs delivered_Cons [of out outs1] by simp
  also have "\<dots> = (delivered [out] @ pending p1) @ produced adv p1 cs"
    using ih by simp
  also have "\<dots> = pending p @ new_events p c out p1 @ produced adv p1 cs"
    using step_fifo [OF st] by simp
  finally show ?case using st by simp
qed

lemma Perform_empty_message:
  assumes "pending p = []"
    and "adv (pool p) EventPoolPoll = (StatePoolQueryMessage qid (KadtPeerID n) msg, pl)"
  shows "Perform adv p =
    Inr (Some (EventOutboundGetCloserNodes qid \<lparr>ID = n, Addrs = []\<rparr> (req_Target msg)), p\<lparr>pool := pl\<rparr>)"
  using assms by (simp add: Perform_empty advancePool_def NodeIDToAddrInfo_def)

lemma Perform_empty_nothing:
  assumes "pending p = []"
    and "adv (pool p) EventPoolPoll = (st, pl)"
    and "st = StatePoolWaitingAtCapacity \<or> st = StatePoolWaitingWithCapacity \<or> st = StatePoolIdle"
  shows "Perform adv p = Inr (None, p\<lparr>pool := pl\<rparr>)"
  using assms by (auto simp: Perform_empty advancePool_def)

text \<open>
  C2. \<^verbatim>\<open>Perform\<close> on a non-empty queue returns the head of the queue and leaves the
  tail, touching nothing else but the readiness signal. On an empty queue it is one advance
  of the pool, with the poll event and no other: a QueryMessage state gives the outbound
  request event, a waiting or idle state gives \<^verbatim>\<open>(nil, false)\<close>. \<^verbatim>\<open>Notify\<close> only
  appends to the queue, and the event its pool advance produces is at the end of the queue
  when it returns. Over any sequence of calls that returns, the events returned by
  \<^verbatim>\<open>Perform\<close>, followed by the events still queued, are the events queued at the start
  followed by the events produced, in the order of production.
\<close>

theorem perform_fifo:
  "(pending pn = e # es \<longrightarrow>
      (\<exists>r. Perform adv pn = Inr (Some e, pn\<lparr>pending := es, ready := r\<rparr>))) \<and>
   (pending pe = [] \<longrightarrow> Perform adv pe = advancePool adv pe EventPoolPoll) \<and>
   (pending pe = [] \<and>
    adv (pool pe) EventPoolPoll = (StatePoolQueryMessage qid (KadtPeerID n) msg, pl) \<longrightarrow>
      Perform adv pe =
        Inr (Some (EventOutboundGetCloserNodes qid \<lparr>ID = n, Addrs = []\<rparr> (req_Target msg)),
             pe\<lparr>pool := pl\<rparr>)) \<and>
   (pending pi = [] \<and> adv (pool pi) EventPoolPoll = (st, pl') \<and>
    (st = StatePoolWaitingAtCapacity \<or> st = StatePoolWaitingWithCapacity \<or> st = StatePoolIdle) \<longrightarrow>
      Perform adv pi = Inr (None, pi\<lparr>pool := pl'\<rparr>)) \<and>
   (pending pr = [] \<longrightarrow>
      snd (pool (final_state (Perform (recording adv) pr))) = snd (pool pr) @ [EventPoolPoll]) \<and>
   (Notify adv p ev = Inr (u, p1) \<longrightarrow> (\<exists>new. pending p1 = pending p @ new)) \<and>
   (Notify_switch p ev = Inr (cmd, ps) \<and> advancePool adv ps cmd = Inr (Some out, pa) \<longrightarrow>
      (\<exists>r. Notify adv p ev = Inr ((), pa\<lparr>pending := pending ps @ [out], ready := r\<rparr>))) \<and>
   (exec adv p0 cs = Inr (outs, p') \<longrightarrow>
      delivered outs @ pending p' = pending p0 @ produced adv p0 cs)"
proof (intro conjI impI)
  assume "pending pn = e # es"
  then have "Perform adv pn = Inr (Some e, pn\<lparr>pending := es, ready := ready pn\<rparr>) \<or>
             Perform adv pn = Inr (Some e, pn\<lparr>pending := es, ready := ready pn + 1\<rparr>)"
    by (simp add: Perform_nonempty signal_ready_def)
  then show "\<exists>r. Perform adv pn = Inr (Some e, pn\<lparr>pending := es, ready := r\<rparr>)"
    by blast
next
  assume "pending pe = []"
  then show "Perform adv pe = advancePool adv pe EventPoolPoll"
    by (rule Perform_empty)
next
  assume "pending pe = [] \<and>
    adv (pool pe) EventPoolPoll = (StatePoolQueryMessage qid (KadtPeerID n) msg, pl)"
  then show "Perform adv pe =
        Inr (Some (EventOutboundGetCloserNodes qid \<lparr>ID = n, Addrs = []\<rparr> (req_Target msg)),
             pe\<lparr>pool := pl\<rparr>)"
    by (simp add: Perform_empty_message)
next
  assume "pending pi = [] \<and> adv (pool pi) EventPoolPoll = (st, pl') \<and>
    (st = StatePoolWaitingAtCapacity \<or> st = StatePoolWaitingWithCapacity \<or> st = StatePoolIdle)"
  then show "Perform adv pi = Inr (None, pi\<lparr>pool := pl'\<rparr>)"
    by (simp add: Perform_empty_nothing)
next
  assume "pending pr = []"
  then show "snd (pool (final_state (Perform (recording adv) pr))) = snd (pool pr) @ [EventPoolPoll]"
    by (simp add: Perform_empty advancePool_recording)
next
  assume "Notify adv p ev = Inr (u, p1)"
  then show "\<exists>new. pending p1 = pending p @ new"
    by (rule Notify_pending)
next
  assume a: "Notify_switch p ev = Inr (cmd, ps) \<and> advancePool adv ps cmd = Inr (Some out, pa)"
  then have "pending pa = pending ps"
    using advancePool_Inr_frame by blast
  with a have "Notify adv p ev = Inr ((), pa\<lparr>pending := pending ps @ [out], ready := ready pa\<rparr>) \<or>
     Notify adv p ev = Inr ((), pa\<lparr>pending := pending ps @ [out], ready := ready pa + 1\<rparr>)"
    by (simp add: Notify_def signal_ready_def Let_def)
  then show "\<exists>r. Notify adv p ev = Inr ((), pa\<lparr>pending := pending ps @ [out], ready := r\<rparr>)"
    by blast
next
  assume "exec adv p0 cs = Inr (outs, p')"
  then show "delivered outs @ pending p' = pending p0 @ produced adv p0 cs"
    by (rule exec_fifo)
qed

theorem perform_fifo_witness:
  "pending fifo_queued =
     EventAddAddrInfo nodeB # [EventOutboundGetCloserNodes ''q1'' nodeA 5] \<and>
   (\<exists>r. Perform scripted_pool fifo_queued =
      Inr (Some (EventAddAddrInfo nodeB),
           fifo_queued\<lparr>pending := [EventOutboundGetCloserNodes ''q1'' nodeA 5], ready := r\<rparr>)) \<and>
   (pending fifo_start = [] \<and>
    scripted_pool (pool fifo_start) EventPoolPoll =
      (StatePoolQueryMessage ''q1'' (KadtPeerID ''QmA'') msg5,
       [StatePoolQueryMessage ''q1'' (KadtPeerID ''QmC'') msg5])) \<and>
   Perform scripted_pool fifo_start = advancePool scripted_pool fifo_start EventPoolPoll \<and>
   Perform scripted_pool fifo_start =
     Inr (Some (EventOutboundGetCloserNodes ''q1'' \<lparr>ID = ''QmA'', Addrs = []\<rparr> (req_Target msg5)),
          fifo_start\<lparr>pool := [StatePoolQueryMessage ''q1'' (KadtPeerID ''QmC'') msg5]\<rparr>) \<and>
   (pending fifo_end = [] \<and> scripted_pool (pool fifo_end) EventPoolPoll = (StatePoolIdle, [])) \<and>
   Perform scripted_pool fifo_end = Inr (None, fifo_end\<lparr>pool := []\<rparr>) \<and>
   pending (NewPooledQueryBehaviour ([StatePoolIdle], [EventPoolStopQuery ''q0''])) = [] \<and>
   snd (pool (final_state (Perform (recording scripted_pool)
          (NewPooledQueryBehaviour ([StatePoolIdle], [EventPoolStopQuery ''q0''])))))
     = snd (pool (NewPooledQueryBehaviour ([StatePoolIdle], [EventPoolStopQuery ''q0''])))
         @ [EventPoolPoll] \<and>
   Notify scripted_pool fifo_start fifo_response = Inr ((), fifo_queued) \<and>
   (\<exists>new. pending fifo_queued = pending fifo_start @ new) \<and>
   (Notify_switch fifo_start fifo_response =
      Inr (EventPoolMessageResponse (KadtPeerID ''QmA'') ''q1'' (CloserNodesResponse 5 [nodeB]),
           fifo_start\<lparr>pending := [EventAddAddrInfo nodeB]\<rparr>) \<and>
    advancePool scripted_pool (fifo_start\<lparr>pending := [EventAddAddrInfo nodeB]\<rparr>)
        (EventPoolMessageResponse (KadtPeerID ''QmA'') ''q1'' (CloserNodesResponse 5 [nodeB])) =
      Inr (Some (EventOutboundGetCloserNodes ''q1'' nodeA 5),
           fifo_queued\<lparr>pending := [EventAddAddrInfo nodeB], ready := 0\<rparr>)) \<and>
   (\<exists>r. Notify scripted_pool fifo_start fifo_response =
      Inr ((), fifo_queued\<lparr>pending := [EventAddAddrInfo nodeB], ready := 0\<rparr>
                 \<lparr>pending := pending (fifo_start\<lparr>pending := [EventAddAddrInfo nodeB]\<rparr>)
                               @ [EventOutboundGetCloserNodes ''q1'' nodeA 5],
                  ready := r\<rparr>)) \<and>
   exec scripted_pool fifo_start fifo_calls = Inr (fifo_outs, fifo_end) \<and>
   delivered fifo_outs @ pending fifo_end
     = pending fifo_start @ produced scripted_pool fifo_start fifo_calls"
proof -
  note defs = fifo_start_def fifo_queued_def fifo_end_def fifo_response_def fifo_calls_def
    fifo_outs_def msg5_def nodeA_def nodeB_def nodeC_def NewPooledQueryBehaviour_def
  note eval = Notify_def advancePool_def NodeIDToAddrInfo_def Perform.simps signal_ready_def
    ready_capacity_def Let_def
  have h1: "pending fifo_queued =
     EventAddAddrInfo nodeB # [EventOutboundGetCloserNodes ''q1'' nodeA 5]"
    by (simp add: defs)
  have h3: "pending fifo_start = [] \<and>
    scripted_pool (pool fifo_start) EventPoolPoll =
      (StatePoolQueryMessage ''q1'' (KadtPeerID ''QmA'') msg5,
       [StatePoolQueryMessage ''q1'' (KadtPeerID ''QmC'') msg5])"
    by (simp add: defs)
  have h4: "pending fifo_end = [] \<and> scripted_pool (pool fifo_end) EventPoolPoll = (StatePoolIdle, []) \<and>
    (StatePoolIdle = StatePoolWaitingAtCapacity \<or> StatePoolIdle = StatePoolWaitingWithCapacity \<or>
     StatePoolIdle = StatePoolIdle)"
    by (simp add: defs)
  have h5: "pending (NewPooledQueryBehaviour ([StatePoolIdle], [EventPoolStopQuery ''q0''])) = []"
    by (simp add: defs)
  have h6: "Notify scripted_pool fifo_start fifo_response = Inr ((), fifo_queued)"
    by (simp add: defs eval)
  have h7: "Notify_switch fifo_start fifo_response =
      Inr (EventPoolMessageResponse (KadtPeerID ''QmA'') ''q1'' (CloserNodesResponse 5 [nodeB]),
           fifo_start\<lparr>pending := [EventAddAddrInfo nodeB]\<rparr>) \<and>
    advancePool scripted_pool (fifo_start\<lparr>pending := [EventAddAddrInfo nodeB]\<rparr>)
        (EventPoolMessageResponse (KadtPeerID ''QmA'') ''q1'' (CloserNodesResponse 5 [nodeB])) =
      Inr (Some (EventOutboundGetCloserNodes ''q1'' nodeA 5),
           fifo_queued\<lparr>pending := [EventAddAddrInfo nodeB], ready := 0\<rparr>)"
    by (simp add: defs eval)
  have h8: "exec scripted_pool fifo_start fifo_calls = Inr (fifo_outs, fifo_end)"
    by (simp add: defs eval)
  note T = perform_fifo
    [where adv = scripted_pool and pn = fifo_queued and e = "EventAddAddrInfo nodeB"
       and es = "[EventOutboundGetCloserNodes ''q1'' nodeA 5]"
       and pe = fifo_start and qid = "''q1''" and n = "''QmA''" and msg = msg5
       and pl = "[StatePoolQueryMessage ''q1'' (KadtPeerID ''QmC'') msg5]"
       and pi = fifo_end and st = StatePoolIdle and pl' = "[]"
       and pr = "NewPooledQueryBehaviour ([StatePoolIdle], [EventPoolStopQuery ''q0''])"
       and p = fifo_start and ev = fifo_response and u = "()" and ?p1.0 = fifo_queued
       and cmd = "EventPoolMessageResponse (KadtPeerID ''QmA'') ''q1'' (CloserNodesResponse 5 [nodeB])"
       and ps = "fifo_start\<lparr>pending := [EventAddAddrInfo nodeB]\<rparr>"
       and out = "EventOutboundGetCloserNodes ''q1'' nodeA 5"
       and pa = "fifo_queued\<lparr>pending := [EventAddAddrInfo nodeB], ready := 0\<rparr>"
       and ?p0.0 = fifo_start and cs = fifo_calls and outs = fifo_outs and p' = fifo_end]
  note T2 = T [THEN conjunct2]
  note T3 = T2 [THEN conjunct2]
  note T4 = T3 [THEN conjunct2]
  note T5 = T4 [THEN conjunct2]
  note T6 = T5 [THEN conjunct2]
  note T7 = T6 [THEN conjunct2]
  note c1 = T [THEN conjunct1, THEN mp, OF h1]
  note c2 = T2 [THEN conjunct1, THEN mp, OF h3 [THEN conjunct1]]
  note c3 = T3 [THEN conjunct1, THEN mp, OF h3]
  note c4 = T4 [THEN conjunct1, THEN mp, OF h4]
  note c5 = T5 [THEN conjunct1, THEN mp, OF h5]
  note c6 = T6 [THEN conjunct1, THEN mp, OF h6]
  note c7 = T7 [THEN conjunct1, THEN mp, OF h7]
  note c8 = T7 [THEN conjunct2, THEN mp, OF h8]
  from h1 c1 h3 c2 c3 h4 c4 h5 c5 h6 c6 h7 c7 h8 c8 show ?thesis
    by (intro conjI) (erule conjE | assumption)+
qed

lemma Notify_switch_ready: "ready (final_state (Notify_switch p ev)) = ready p"
  by (cases ev) (simp_all add: final_state_def Let_def split: option.splits)

lemma final_state_Inl [simp]: "final_state (Inl (e, p)) = p"
  by (simp add: final_state_def)

lemma final_state_Inr [simp]: "final_state (Inr (x, p)) = p"
  by (simp add: final_state_def)

lemma final_state_Notify_cases:
  "final_state (Notify adv p ev) =
     (case Notify_switch p ev of
        Inl (e, p0) \<Rightarrow> p0
      | Inr (cmd, p1) \<Rightarrow>
          (case advancePool adv p1 cmd of
             Inl (e, p2) \<Rightarrow> p2
           | Inr (out, p2) \<Rightarrow> enqueue_output out p2))"
  by (simp add: Notify_def enqueue_output_eq split: sum.splits prod.splits)

lemma enqueue_output_ready:
  "ready p \<le> ready_capacity \<Longrightarrow>
   ready (enqueue_output out p) \<le> ready_capacity \<and>
   (pending (enqueue_output out p) \<noteq> [] \<longrightarrow> ready (enqueue_output out p) = ready_capacity) \<and>
   (pending (enqueue_output out p) = [] \<longrightarrow> ready (enqueue_output out p) = ready p)"
  by (auto simp: enqueue_output_def ready_capacity_def Let_def)

lemma Notify_ready_le:
  assumes "ready p \<le> ready_capacity"
  shows "ready (final_state (Notify adv p ev)) \<le> ready_capacity"
proof (cases "Notify_switch p ev")
  case (Inl a)
  then show ?thesis using assms Notify_switch_ready [of p ev]
    by (cases a) (simp add: final_state_Notify_cases)
next
  case (Inr b)
  obtain cmd p1 where b: "b = (cmd, p1)" by (cases b)
  with Inr have r1: "ready p1 = ready p" using Notify_switch_ready [of p ev] by simp
  show ?thesis
  proof (cases "advancePool adv p1 cmd")
    case (Inl a)
    obtain e p2 where a: "a = (e, p2)" by (cases a)
    with Inl have "ready p2 = ready p1" using advancePool_Inl_frame by blast
    with Inr b Inl a r1 assms show ?thesis by (simp add: final_state_Notify_cases)
  next
    case (Inr c)
    obtain out p2 where c: "c = (out, p2)" by (cases c)
    with Inr have "ready p2 = ready p1" using advancePool_Inr_frame by blast
    with r1 assms have "ready p2 \<le> ready_capacity" by simp
    from enqueue_output_ready [OF this, of out] \<open>Notify_switch p ev = Inr b\<close> b Inr c
    show ?thesis by (simp add: final_state_Notify_cases)
  qed
qed

lemma Notify_ready_set:
  assumes "Notify adv p ev = Inr (u, p')" and "ready p \<le> ready_capacity"
  shows "(pending p' \<noteq> [] \<longrightarrow> ready p' = ready_capacity) \<and>
         (pending p' = [] \<longrightarrow> ready p' = ready p)"
proof -
  from assms(1) obtain cmd p1 where sw: "Notify_switch p ev = Inr (cmd, p1)"
    by (auto simp: Notify_def split: sum.splits)
  with assms(1) obtain out p2 where ad: "advancePool adv p1 cmd = Inr (out, p2)"
    by (auto simp: Notify_def split: sum.splits)
  from sw have "ready p1 = ready p" using Notify_switch_ready [of p ev] by simp
  moreover from ad have "ready p2 = ready p1" using advancePool_Inr_frame by blast
  ultimately have r2: "ready p2 = ready p" by simp
  with assms(2) have "ready p2 \<le> ready_capacity" by simp
  moreover from assms(1) sw ad have "p' = enqueue_output out p2"
    by (simp add: Notify_def enqueue_output_eq)
  ultimately show ?thesis using enqueue_output_ready [of p2 out] r2 by simp
qed

lemma signal_ready_le:
  "ready p \<le> ready_capacity \<Longrightarrow> ready (signal_ready p) = ready_capacity"
  by (simp add: signal_ready_def ready_capacity_def)

lemma Perform_ready_le:
  assumes "ready p \<le> ready_capacity"
  shows "ready (final_state (Perform adv p)) \<le> ready_capacity"
proof (cases "pending p")
  case Nil
  then show ?thesis using assms advancePool_frame [of adv p EventPoolPoll]
    by (simp add: Perform_empty)
next
  case (Cons e es)
  then show ?thesis using assms signal_ready_le [of "p\<lparr>pending := es\<rparr>"]
    by (simp add: Perform_nonempty)
qed

lemma step_ready_le:
  assumes "ready p \<le> ready_capacity"
  shows "ready (final_state (step adv p c)) \<le> ready_capacity"
proof (cases c)
  case (CallNotify ev)
  have "final_state (step adv p (CallNotify ev)) = final_state (Notify adv p ev)"
    by (simp add: final_state_def split: sum.splits prod.splits)
  with CallNotify assms show ?thesis by (simp add: Notify_ready_le)
next
  case CallPerform
  with assms show ?thesis by (simp add: Perform_ready_le)
next
  case CallRecvReady
  with assms show ?thesis by simp
qed

lemma final_state_exec_Cons:
  "final_state (exec adv p (c # cs)) =
     (case step adv p c of
        Inl (e, q) \<Rightarrow> q
      | Inr (out, p1) \<Rightarrow> final_state (exec adv p1 cs))"
  by (simp add: final_state_def split: sum.splits prod.splits)

lemma exec_ready_le:
  "ready p \<le> ready_capacity \<Longrightarrow> ready (final_state (exec adv p cs)) \<le> ready_capacity"
proof (induction cs arbitrary: p)
  case Nil
  then show ?case by simp
next
  case (Cons c cs)
  show ?case
  proof (cases "step adv p c")
    case (Inl a)
    then show ?thesis using step_ready_le [OF Cons.prems, of adv c]
      unfolding final_state_exec_Cons by (cases a) simp
  next
    case (Inr b)
    obtain out p1 where b: "b = (out, p1)" by (cases b)
    with Inr step_ready_le [OF Cons.prems, of adv c] have "ready p1 \<le> ready_capacity" by simp
    from Cons.IH [OF this] Inr b show ?thesis
      unfolding final_state_exec_Cons by simp
  qed
qed

text \<open>
  C5. The readiness channel has one slot. From a behaviour that buffers at most one token:
  a \<^verbatim>\<open>Notify\<close> that returns with a non-empty queue leaves the slot set, and so does
  a \<^verbatim>\<open>Perform\<close> that dequeues and leaves further events queued. The signalling step
  (a \<^verbatim>\<open>select\<close> with a \<^verbatim>\<open>default\<close> branch, a total function here) changes nothing
  when the slot is already set and adds one token otherwise. After any sequence of calls,
  also one that ends in a panic, at most one token is buffered.
\<close>

theorem ready_signal_single_slot:
  assumes "ready p \<le> ready_capacity"
  shows "(Notify adv p ev = Inr (u, p1) \<and> pending p1 \<noteq> [] \<longrightarrow> ready p1 = ready_capacity) \<and>
         (pending p = e # es \<and> es \<noteq> [] \<longrightarrow>
            (\<exists>p2. Perform adv p = Inr (Some e, p2) \<and> ready p2 = ready_capacity)) \<and>
         (ready s = ready_capacity \<longrightarrow> signal_ready s = s) \<and>
         (ready s' < ready_capacity \<longrightarrow> signal_ready s' = s'\<lparr>ready := ready s' + 1\<rparr>) \<and>
         ready (final_state (exec adv p cs)) \<le> ready_capacity \<and>
         ready_capacity = 1"
proof (intro conjI impI)
  assume "Notify adv p ev = Inr (u, p1) \<and> pending p1 \<noteq> []"
  then show "ready p1 = ready_capacity"
    using Notify_ready_set [of adv p ev u p1] assms by simp
next
  assume "pending p = e # es \<and> es \<noteq> []"
  then have "Perform adv p = Inr (Some e, signal_ready (p\<lparr>pending := es\<rparr>))"
    by (simp add: Perform_nonempty)
  moreover have "ready (signal_ready (p\<lparr>pending := es\<rparr>)) = ready_capacity"
    using assms signal_ready_le [of "p\<lparr>pending := es\<rparr>"] by simp
  ultimately show "\<exists>p2. Perform adv p = Inr (Some e, p2) \<and> ready p2 = ready_capacity"
    by blast
next
  assume "ready s = ready_capacity"
  then show "signal_ready s = s" by (simp add: signal_ready_def)
next
  assume "ready s' < ready_capacity"
  then show "signal_ready s' = s'\<lparr>ready := ready s' + 1\<rparr>" by (simp add: signal_ready_def)
next
  show "ready (final_state (exec adv p cs)) \<le> ready_capacity"
    using assms by (rule exec_ready_le)
next
  show "ready_capacity = 1" by (simp add: ready_capacity_def)
qed

theorem ready_signal_single_slot_witness:
  "ready fifo_queued \<le> ready_capacity \<and>
   Notify scripted_pool fifo_queued (EventStopQuery ''q1'') =
     Inr ((), fifo_queued\<lparr>pool := [],
                pending := pending fifo_queued @ [EventOutboundGetCloserNodes ''q1'' nodeC 5]\<rparr>) \<and>
   pending (fifo_queued\<lparr>pool := [],
      pending := pending fifo_queued @ [EventOutboundGetCloserNodes ''q1'' nodeC 5]\<rparr>) \<noteq> [] \<and>
   ready (fifo_queued\<lparr>pool := [],
      pending := pending fifo_queued @ [EventOutboundGetCloserNodes ''q1'' nodeC 5]\<rparr>)
     = ready_capacity \<and>
   (pending fifo_queued = EventAddAddrInfo nodeB # [EventOutboundGetCloserNodes ''q1'' nodeA 5] \<and>
    [EventOutboundGetCloserNodes ''q1'' nodeA 5] \<noteq> []) \<and>
   (\<exists>p2. Perform scripted_pool fifo_queued = Inr (Some (EventAddAddrInfo nodeB), p2) \<and>
      ready p2 = ready_capacity) \<and>
   ready fifo_queued = ready_capacity \<and>
   signal_ready fifo_queued = fifo_queued \<and>
   ready fifo_start < ready_capacity \<and>
   signal_ready fifo_start = fifo_start\<lparr>ready := ready fifo_start + 1\<rparr> \<and>
   ready (final_state (exec scripted_pool fifo_queued
     [CallPerform, CallRecvReady, CallNotify (EventStopQuery ''q1''), CallPerform]))
     \<le> ready_capacity"
proof -
  note defs = fifo_start_def fifo_queued_def msg5_def nodeA_def nodeB_def nodeC_def
    NewPooledQueryBehaviour_def ready_capacity_def
  have h0: "ready fifo_queued \<le> ready_capacity"
    by (simp add: defs)
  have nt: "Notify scripted_pool fifo_queued (EventStopQuery ''q1'') =
     Inr ((), fifo_queued\<lparr>pool := [],
                pending := pending fifo_queued @ [EventOutboundGetCloserNodes ''q1'' nodeC 5]\<rparr>)"
    by (simp add: defs Notify_def advancePool_def NodeIDToAddrInfo_def signal_ready_def)
  have ne: "pending (fifo_queued\<lparr>pool := [],
      pending := pending fifo_queued @ [EventOutboundGetCloserNodes ''q1'' nodeC 5]\<rparr>) \<noteq> []"
    by simp
  have hp: "pending fifo_queued =
      EventAddAddrInfo nodeB # [EventOutboundGetCloserNodes ''q1'' nodeA 5] \<and>
    [EventOutboundGetCloserNodes ''q1'' nodeA 5] \<noteq> []"
    by (simp add: defs)
  have hs: "ready fifo_queued = ready_capacity"
    by (simp add: defs)
  have hs': "ready fifo_start < ready_capacity"
    by (simp add: defs)
  note T = ready_signal_single_slot
    [OF h0, where adv = scripted_pool and ev = "EventStopQuery ''q1''" and u = "()"
       and ?p1.0 = "fifo_queued\<lparr>pool := [],
              pending := pending fifo_queued @ [EventOutboundGetCloserNodes ''q1'' nodeC 5]\<rparr>"
       and e = "EventAddAddrInfo nodeB" and es = "[EventOutboundGetCloserNodes ''q1'' nodeA 5]"
       and s = fifo_queued and s' = fifo_start
       and cs = "[CallPerform, CallRecvReady, CallNotify (EventStopQuery ''q1''), CallPerform]"]
  note T2 = T [THEN conjunct2]
  note T3 = T2 [THEN conjunct2]
  note T4 = T3 [THEN conjunct2]
  note T5 = T4 [THEN conjunct2]
  note c1 = T [THEN conjunct1, THEN mp, OF conjI [OF nt ne]]
  note c2 = T2 [THEN conjunct1, THEN mp, OF hp]
  note c3 = T3 [THEN conjunct1, THEN mp, OF hs]
  note c4 = T4 [THEN conjunct1, THEN mp, OF hs']
  note c5 = T5 [THEN conjunct1]
  from h0 nt ne c1 hp c2 hs c3 hs' c4 c5 show ?thesis
    by (intro conjI) (erule conjE | assumption)+
qed

lemma advancePool_unregistered:
  assumes "waiters p q = None"
  shows "waiters (final_state (advancePool adv p ev)) q = None \<and>
         filter (about_query q) (notified (final_state (advancePool adv p ev)))
           = filter (about_query q) (notified p)"
  using assms
  by (auto simp: advancePool_def Let_def
      split: prod.splits pool_state.splits sum.splits option.splits)

lemma Notify_switch_unregistered:
  assumes "waiters p q = None" and "\<not> registers q (CallNotify ev)"
  shows "waiters (final_state (Notify_switch p ev)) q = None \<and>
         filter (about_query q) (notified (final_state (Notify_switch p ev)))
           = filter (about_query q) (notified p)"
  using assms by (cases ev) (auto simp: Let_def split: option.splits)

lemma enqueue_output_frame:
  "waiters (enqueue_output out p) = waiters p \<and> notified (enqueue_output out p) = notified p"
  by (simp add: enqueue_output_def Let_def)

lemma Notify_unregistered:
  assumes "waiters p q = None" and "\<not> registers q (CallNotify ev)"
  shows "waiters (final_state (Notify adv p ev)) q = None \<and>
         filter (about_query q) (notified (final_state (Notify adv p ev)))
           = filter (about_query q) (notified p)"
proof (cases "Notify_switch p ev")
  case (Inl a)
  then show ?thesis using Notify_switch_unregistered [OF assms]
    by (cases a) (simp add: final_state_Notify_cases)
next
  case (Inr b)
  obtain cmd p1 where b: "b = (cmd, p1)" by (cases b)
  with Inr Notify_switch_unregistered [OF assms]
  have p1: "waiters p1 q = None"
    and n1: "filter (about_query q) (notified p1) = filter (about_query q) (notified p)"
    by simp_all
  from advancePool_unregistered [OF p1, of adv cmd] n1 Inr b show ?thesis
    by (cases "advancePool adv p1 cmd")
       (auto simp: final_state_Notify_cases enqueue_output_frame)
qed

lemma Perform_unregistered:
  assumes "waiters p q = None"
  shows "waiters (final_state (Perform adv p)) q = None \<and>
         filter (about_query q) (notified (final_state (Perform adv p)))
           = filter (about_query q) (notified p)"
proof (cases "pending p")
  case Nil
  then show ?thesis using advancePool_unregistered [OF assms, of adv EventPoolPoll]
    by (simp add: Perform_empty)
next
  case (Cons e es)
  then show ?thesis using assms by (simp add: Perform_nonempty signal_ready_def)
qed

lemma final_state_step_Notify:
  "final_state (step adv p (CallNotify ev)) = final_state (Notify adv p ev)"
  by (simp add: final_state_def split: sum.splits prod.splits)

lemma step_unregistered:
  assumes "waiters p q = None" and "\<not> registers q c"
  shows "waiters (final_state (step adv p c)) q = None \<and>
         filter (about_query q) (notified (final_state (step adv p c)))
           = filter (about_query q) (notified p)"
proof (cases c)
  case (CallNotify ev)
  with assms show ?thesis
    using Notify_unregistered [of p q ev adv] by (simp only: final_state_step_Notify) simp
next
  case CallPerform
  with assms show ?thesis using Perform_unregistered [of p q adv] by simp
next
  case CallRecvReady
  with assms show ?thesis by simp
qed

lemma exec_unregistered:
  "waiters p q = None \<Longrightarrow> \<forall>c \<in> set cs. \<not> registers q c \<Longrightarrow>
   waiters (final_state (exec adv p cs)) q = None \<and>
   filter (about_query q) (notified (final_state (exec adv p cs)))
     = filter (about_query q) (notified p)"
proof (induction cs arbitrary: p)
  case Nil
  then show ?case by simp
next
  case (Cons c cs)
  from Cons.prems have nc: "\<not> registers q c" and ncs: "\<forall>c \<in> set cs. \<not> registers q c"
    by simp_all
  note st = step_unregistered [OF Cons.prems(1) nc, of adv]
  show ?case
  proof (cases "step adv p c")
    case (Inl a)
    then show ?thesis using st unfolding final_state_exec_Cons by (cases a) simp
  next
    case (Inr b)
    obtain out p1 where b: "b = (out, p1)" by (cases b)
    with Inr st have w1: "waiters p1 q = None"
      and n1: "filter (about_query q) (notified p1) = filter (about_query q) (notified p)"
      by simp_all
    from Cons.IH [OF w1 ncs] n1 Inr b show ?thesis
      unfolding final_state_exec_Cons by simp
  qed
qed

text \<open>
  C7. Fire-and-forget. Take a query identifier with no entry in the waiter registry, and any
  sequence of calls in which no \<^verbatim>\<open>StartQuery\<close> for that identifier supplies a
  notification target. A \<^verbatim>\<open>StartQuery\<close> without a target registers nothing; the
  progress path of \<^verbatim>\<open>GetCloserNodesSuccess\<close> and the finish path of
  \<^verbatim>\<open>QueryFinished\<close> call no target; and after the whole sequence, also one that ends
  in a panic, the registry still has no entry for the identifier and no progress or finish
  event about it has been handed to any target.
\<close>

theorem fire_and_forget:
  assumes "waiters p q = None" and "\<forall>c \<in> set cs. \<not> registers q c"
  shows "waiters (final_state (Notify adv p (EventStartQuery q target proto msg known None))) q = None \<and>
         notified (final_state (Notify_switch p (EventGetCloserNodesSuccess q to target' closer)))
           = notified p \<and>
         (waiters p' q = None \<and> fst (adv (pool p') cmd) = StatePoolQueryFinished q stats \<longrightarrow>
            advancePool adv p' cmd = Inr (None, p'\<lparr>pool := snd (adv (pool p') cmd)\<rparr>)) \<and>
         waiters (final_state (exec adv p cs)) q = None \<and>
         filter (about_query q) (notified (final_state (exec adv p cs)))
           = filter (about_query q) (notified p)"
proof (intro conjI impI)
  show "waiters (final_state (Notify adv p (EventStartQuery q target proto msg known None))) q = None"
    using Notify_unregistered [OF assms(1), of "EventStartQuery q target proto msg known None" adv]
    by simp
next
  show "notified (final_state (Notify_switch p (EventGetCloserNodesSuccess q to target' closer)))
           = notified p"
    using assms(1) by (simp add: Let_def)
next
  assume "waiters p' q = None \<and> fst (adv (pool p') cmd) = StatePoolQueryFinished q stats"
  then show "advancePool adv p' cmd = Inr (None, p'\<lparr>pool := snd (adv (pool p') cmd)\<rparr>)"
    by (cases "adv (pool p') cmd") (simp add: advancePool_def)
next
  show "waiters (final_state (exec adv p cs)) q = None"
    using exec_unregistered [OF assms] by simp
next
  show "filter (about_query q) (notified (final_state (exec adv p cs)))
           = filter (about_query q) (notified p)"
    using exec_unregistered [OF assms] by simp
qed

theorem fire_and_forget_witness:
  "waiters forget_start ''q1'' = None \<and>
   waiters (final_state (Notify scripted_pool forget_start
      (EventStartQuery ''q1'' 5 ''/ipfs/kad/1.0.0'' msg5 [''QmA''] None))) ''q1'' = None \<and>
   notified (final_state (Notify_switch forget_start
      (EventGetCloserNodesSuccess ''q1'' nodeA 5 []))) = notified forget_start \<and>
   (waiters (forget_start\<lparr>pool := [StatePoolQueryFinished ''q1'' stats1]\<rparr>) ''q1'' = None \<and>
    fst (scripted_pool (pool (forget_start\<lparr>pool := [StatePoolQueryFinished ''q1'' stats1]\<rparr>))
           EventPoolPoll) = StatePoolQueryFinished ''q1'' stats1) \<and>
   advancePool scripted_pool (forget_start\<lparr>pool := [StatePoolQueryFinished ''q1'' stats1]\<rparr>)
       EventPoolPoll =
     Inr (None, forget_start\<lparr>pool := [StatePoolQueryFinished ''q1'' stats1]\<rparr>
                  \<lparr>pool := snd (scripted_pool
                     (pool (forget_start\<lparr>pool := [StatePoolQueryFinished ''q1'' stats1]\<rparr>))
                     EventPoolPoll)\<rparr>) \<and>
   exec scripted_pool forget_start forget_calls =
     Inr ([None, Some (EventOutboundGetCloserNodes ''q1'' nodeA 5), None, None], forget_end) \<and>
   waiters (final_state (exec scripted_pool forget_start forget_calls)) ''q1'' = None \<and>
   filter (about_query ''q1'') (notified (final_state (exec scripted_pool forget_start forget_calls)))
     = filter (about_query ''q1'') (notified forget_start)"
proof -
  note defs = forget_start_def forget_calls_def forget_end_def msg5_def nodeA_def stats1_def
  have h1: "waiters forget_start ''q1'' = None"
    by (simp add: defs)
  have h2: "\<forall>c \<in> set forget_calls. \<not> registers ''q1'' c"
    by (simp add: defs)
  have h3: "waiters (forget_start\<lparr>pool := [StatePoolQueryFinished ''q1'' stats1]\<rparr>) ''q1'' = None \<and>
    fst (scripted_pool (pool (forget_start\<lparr>pool := [StatePoolQueryFinished ''q1'' stats1]\<rparr>))
           EventPoolPoll) = StatePoolQueryFinished ''q1'' stats1"
    by (simp add: defs)
  have run: "exec scripted_pool forget_start forget_calls =
     Inr ([None, Some (EventOutboundGetCloserNodes ''q1'' nodeA 5), None, None], forget_end)"
    by (simp add: defs Notify_def advancePool_def NodeIDToAddrInfo_def Perform.simps
        signal_ready_def ready_capacity_def Let_def)
  note T = fire_and_forget
    [OF h1 h2, where adv = scripted_pool and target = 5 and proto = "''/ipfs/kad/1.0.0''"
       and msg = msg5 and known = "[''QmA'']" and to = nodeA and target' = 5 and closer = "[]"
       and p' = "forget_start\<lparr>pool := [StatePoolQueryFinished ''q1'' stats1]\<rparr>"
       and cmd = EventPoolPoll and stats = stats1]
  note T2 = T [THEN conjunct2]
  note T3 = T2 [THEN conjunct2]
  note T4 = T3 [THEN conjunct2]
  note c1 = T [THEN conjunct1]
  note c2 = T2 [THEN conjunct1]
  note c3 = T3 [THEN conjunct1, THEN mp, OF h3]
  note c4 = T4 [THEN conjunct1]
  note c5 = T4 [THEN conjunct2]
  from h1 c1 c2 h3 c3 run c4 c5 show ?thesis
    by (intro conjI) (erule conjE | assumption)+
qed

text \<open>
  C1, at a concrete run. The query \<open>q1\<close> is started with notification target 7; the
  response of \<open>QmA\<close> makes the pool report the query finished; the response of
  \<open>QmB\<close>, still in flight, arrives afterwards. The target is handed a progress event
  after its finish event and after it was closed, and the registry still maps \<open>q1\<close>
  to it: \<^verbatim>\<open>advancePool\<close> closes the target but never deletes the entry.
\<close>

theorem finished_waiter_notified_again:
  "exec scripted_pool
     (NewPooledQueryBehaviour
        [StatePoolWaitingWithCapacity, StatePoolQueryFinished ''q1'' \<lparr>Requests = 2, Success = 2, Failure = 0\<rparr>, StatePoolIdle])
     [CallNotify (EventStartQuery ''q1'' 5 ''/ipfs/kad/1.0.0'' \<lparr>req_Target = 5, req_Body = []\<rparr> [''QmA'', ''QmB''] (Some 7)),
      CallNotify (EventGetCloserNodesSuccess ''q1'' \<lparr>ID = ''QmA'', Addrs = []\<rparr> 5 []),
      CallNotify (EventGetCloserNodesSuccess ''q1'' \<lparr>ID = ''QmB'', Addrs = []\<rparr> 5 [])]
   = Inr ([None, None, None],
       \<lparr>pool = [], waiters = [''q1'' \<mapsto> 7], pending = [], ready = 0,
        notified =
          [WaiterNotify 7 (EventQueryProgressed ''QmA'' ''q1''
             \<lparr>resp_Target = 5, resp_CloserNodes = []\<rparr>),
           WaiterNotify 7 (EventQueryFinished ''q1'' \<lparr>Requests = 2, Success = 2, Failure = 0\<rparr>),
           WaiterClose 7,
           WaiterNotify 7 (EventQueryProgressed ''QmB'' ''q1''
             \<lparr>resp_Target = 5, resp_CloserNodes = []\<rparr>)]\<rparr>)"
  by (simp add: NewPooledQueryBehaviour_def Notify_def advancePool_def
      signal_ready_def ready_capacity_def Let_def CloserNodesResponse_def)

text \<open>
  C4, at a concrete input. The pool reports \<^verbatim>\<open>QueryTimeout\<close> for \<open>q1\<close>, whose
  notification target 7 is registered: \<^verbatim>\<open>advancePool\<close> returns without a panic, calls
  nothing on the target and leaves its registration in place. On \<^verbatim>\<open>QueryFinished\<close>
  from the same behaviour the target is handed the finish event and closed.
\<close>

theorem timeout_keeps_waiter_unnotified:
  "advancePool scripted_pool
     \<lparr>pool = [StatePoolQueryTimeout ''q1''], waiters = [''q1'' \<mapsto> 7],
      pending = [], ready = 0, notified = []\<rparr> EventPoolPoll
   = Inr (None,
       \<lparr>pool = [], waiters = [''q1'' \<mapsto> 7], pending = [], ready = 0, notified = []\<rparr>) \<and>
   advancePool scripted_pool
     \<lparr>pool = [StatePoolQueryFinished ''q1'' \<lparr>Requests = 2, Success = 2, Failure = 0\<rparr>], waiters = [''q1'' \<mapsto> 7],
      pending = [], ready = 0, notified = []\<rparr> EventPoolPoll
   = Inr (None,
       \<lparr>pool = [], waiters = [''q1'' \<mapsto> 7], pending = [], ready = 0,
        notified = [WaiterNotify 7 (EventQueryFinished ''q1'' \<lparr>Requests = 2, Success = 2, Failure = 0\<rparr>), WaiterClose 7]\<rparr>)"
  by (simp add: advancePool_def)

end
